theory Spec2Isabelle
  imports Main
begin

section \<open>Data model\<close>

text \<open>
  The repository holds two implementations of the daily lifecycle job: the TypeScript
  handler \<^verbatim>\<open>src/app.ts\<close> (the webpack entry; one scan, one transaction) and the older
  \<^verbatim>\<open>src/todo-manage/app.js\<close> (two index queries, one transaction per expiring record, one
  delete call per purged record). Both are embedded below; the names are the source's.

  A JavaScript \<^verbatim>\<open>Date\<close> is its time value in milliseconds since the epoch, or NaN when
  the string it was built from does not parse. The date strings stored in a record are
  represented by the \<^verbatim>\<open>Date\<close> they parse to.
\<close>

datatype date = Date int | InvalidDate

text \<open>
  The \<^verbatim>\<open>complete\<close> field is declared \<^verbatim>\<open>boolean\<close>, but the items are cast from the scan
  result without validation, and the filter compares with \<^verbatim>\<open>=== false\<close>; so the field is
  a JavaScript value.
\<close>

datatype jsval = JBool bool | JNum int | JStr string | JNull | JUndefined

record Content =
  complete :: jsval
  content :: string

record Comment =
  commentType :: string
  freeComment :: string
  contentList :: "Content list"

record Todo =
  todo_id :: string
  status :: int
  title :: string
  comment :: Comment
  url :: string
  targetAt :: date
  carryOver :: bool
  createdAt :: string
  updatedAt :: date
  updatedUser :: string
  owner :: "string option"

text \<open>
  \<^verbatim>\<open>DocumentClient.TransactWriteItem\<close>: the three shapes the program builds. An
  \<^verbatim>\<open>Update\<close> carries its key and the value bound to \<^verbatim>\<open>:delete\<close> in
  \<^verbatim>\<open>set #status = :delete\<close>; a \<^verbatim>\<open>Put\<close> carries its item and its condition expression,
  which in the source is always \<^verbatim>\<open>attribute_not_exists(#id)\<close> with \<^verbatim>\<open>#id\<close> naming \<^verbatim>\<open>id\<close>.
\<close>

datatype condition = attribute_not_exists_id

datatype TransactWriteItem =
    Update string int
  | Put Todo "condition option"
  | Delete string

definition flagDeleteDate :: int where "flagDeleteDate = 7"
definition resetAddDate :: int where "resetAddDate = 3"
definition dataDeleteDate :: int where "dataDeleteDate = 7"

text \<open>
  \<^verbatim>\<open>d.setDate(d.getDate() + n)\<close> on a valid date, in the UTC time zone of the Lambda
  runtime, where every day has 86400000 milliseconds.
\<close>

definition setDate_add :: "int \<Rightarrow> int \<Rightarrow> int" where
  "setDate_add t n = t + n * 86400000"

text \<open>
  The two effects of the decision code: \<^verbatim>\<open>new Date()\<close> reads the wall clock and
  \<^verbatim>\<open>uuidv4()\<close> draws an identifier. The run-time environment gives the successive results
  of both; the state counts the calls made so far.
\<close>

record runtime =
  dates :: "nat \<Rightarrow> int"
  uuids :: "nat \<Rightarrow> string"

type_synonym calls = "nat \<times> nat"

section \<open>The TypeScript handler\<close>

text \<open>
  The functions of \<^verbatim>\<open>src/app.ts\<close>, whose text follows the deployment template in
  \<^verbatim>\<open>template.yaml\<close>. Each function that reads the clock or draws an identifier takes the
  run-time environment and the calls made so far, and returns the calls made after it.
\<close>

definition createTransactItemForStatusUpdate :: "Todo \<Rightarrow> TransactWriteItem" where
  "createTransactItemForStatusUpdate todo = Update (todo_id todo) 1"

definition createTransactItemForNewDedlineTodo ::
  "runtime \<Rightarrow> calls \<Rightarrow> Todo \<Rightarrow> Comment \<Rightarrow> TransactWriteItem \<times> calls" where
  "createTransactItemForNewDedlineTodo rt c todo carryOverComment =
     (let date = dates rt (fst c);
          updateiSOString = Date date;
          date' = setDate_add date resetAddDate
      in (Put \<lparr> todo_id = uuids rt (snd c),
                 status = status todo,
                 title = title todo,
                 comment = carryOverComment,
                 url = url todo,
                 targetAt = Date date',
                 carryOver = carryOver todo,
                 createdAt = createdAt todo,
                 updatedAt = updateiSOString,
                 updatedUser = updatedUser todo,
                 owner = None \<rparr>
              (Some attribute_not_exists_id),
          (Suc (fst c), Suc (snd c))))"

text \<open>The object \<^verbatim>\<open>carryOverComment\<close> that the loop over the expiring records builds for a
  record; the older handler builds it with the same expression.\<close>

definition carryOverComment_of :: "Todo \<Rightarrow> Comment" where
  "carryOverComment_of updateTodo =
     \<lparr> commentType = commentType (comment updateTodo),
       freeComment = freeComment (comment updateTodo),
       contentList = filter (\<lambda>content. complete content = JBool False)
                       (contentList (comment updateTodo)) \<rparr>"

text \<open>The loop \<^verbatim>\<open>for (const updateTodo of updateTodoItems)\<close> of
  \<^verbatim>\<open>createExpiredTransactItems\<close>; the result is \<^verbatim>\<open>transactItems\<close>. The two filter predicates of
  the source are \<^verbatim>\<open>expiryEligible\<close> and \<^verbatim>\<open>deleteEligible\<close>; a date that does not parse has
  the time value NaN, and \<^verbatim>\<open>NaN > 0\<close> is false.\<close>

fun expiredLoop :: "runtime \<Rightarrow> calls \<Rightarrow> Todo list \<Rightarrow> TransactWriteItem list \<times> calls" where
  "expiredLoop rt c [] = ([], c)"
| "expiredLoop rt c (updateTodo # rest) =
     (if \<not> carryOver updateTodo then
        (let (items, c') = expiredLoop rt c rest
         in (createTransactItemForStatusUpdate updateTodo # items, c'))
      else if length (contentList (carryOverComment_of updateTodo)) = 0 then
        (let (items, c') = expiredLoop rt c rest
         in (createTransactItemForStatusUpdate updateTodo # items, c'))
      else
        (let (put, c1) = createTransactItemForNewDedlineTodo rt c updateTodo
                           (carryOverComment_of updateTodo);
             (items, c') = expiredLoop rt c1 rest
         in (createTransactItemForStatusUpdate updateTodo # put # items, c')))"

definition expiryEligible :: "int \<Rightarrow> Todo \<Rightarrow> bool" where
  "expiryEligible deleteLimit todo =
     (if status todo \<noteq> 0 then False
      else (case targetAt todo of
              Date updateDate \<Rightarrow> if updateDate - deleteLimit > 0 then False else True
            | InvalidDate \<Rightarrow> True))"

definition createExpiredTransactItems ::
  "runtime \<Rightarrow> calls \<Rightarrow> Todo list \<Rightarrow> TransactWriteItem list \<times> calls" where
  "createExpiredTransactItems rt c todoItems =
     (let deleteLimit = setDate_add (dates rt (fst c)) (- flagDeleteDate);
          updateTodoItems = filter (expiryEligible deleteLimit) todoItems
      in expiredLoop rt (Suc (fst c), snd c) updateTodoItems)"

definition deleteEligible :: "int \<Rightarrow> string option list \<Rightarrow> Todo \<Rightarrow> bool" where
  "deleteEligible deleteLimit deleteIds todo =
     (if status todo \<noteq> 1 \<and> Some (todo_id todo) \<notin> set deleteIds then False
      else (case targetAt todo of
              Date updateDate \<Rightarrow> if updateDate - deleteLimit > 0 then False else True
            | InvalidDate \<Rightarrow> True))"

definition createDeleteTransactItems ::
  "runtime \<Rightarrow> calls \<Rightarrow> Todo list \<Rightarrow> string option list \<Rightarrow> TransactWriteItem list \<times> calls" where
  "createDeleteTransactItems rt c todoItems deleteIds =
     (let deleteLimit = setDate_add (dates rt (fst c)) (- dataDeleteDate)
      in (map (\<lambda>todo. Delete (todo_id todo))
            (filter (deleteEligible deleteLimit deleteIds) todoItems),
          (Suc (fst c), snd c)))"

text \<open>\<^verbatim>\<open>item.Update\<close>, \<^verbatim>\<open>item.Update?.Key?.id\<close> and \<^verbatim>\<open>item.Delete?.Key?.id\<close>.\<close>

fun hasUpdate :: "TransactWriteItem \<Rightarrow> bool" where
  "hasUpdate (Update k v) = True"
| "hasUpdate _ = False"

fun updateKeyId :: "TransactWriteItem \<Rightarrow> string option" where
  "updateKeyId (Update k v) = Some k"
| "updateKeyId _ = None"

fun deleteKeyId :: "TransactWriteItem \<Rightarrow> string option" where
  "deleteKeyId (Delete k) = Some k"
| "deleteKeyId _ = None"

definition createTransactItems ::
  "runtime \<Rightarrow> calls \<Rightarrow> Todo list \<Rightarrow> TransactWriteItem list \<times> calls" where
  "createTransactItems rt c todoItems =
     (let (epiredTransactItems, c1) = createExpiredTransactItems rt c todoItems;
          updateIds = map updateKeyId (filter hasUpdate epiredTransactItems);
          (deleteTransactItems, c2) = createDeleteTransactItems rt c1 todoItems updateIds;
          duplicateIds = map deleteKeyId
                           (filter (\<lambda>item. deleteKeyId item \<in> set updateIds) deleteTransactItems)
      in (filter (\<lambda>item. updateKeyId item \<notin> set duplicateIds) epiredTransactItems
            @ deleteTransactItems,
          c2))"

subsection \<open>The record store\<close>

text \<open>
  Modelled from the spec: the Record Store Gateway (the DynamoDB \<^verbatim>\<open>DocumentClient\<close>), an
  external collaborator whose code is not in the repository. The table is the list of its
  rows, keyed by \<^verbatim>\<open>id\<close>. A batch is applied atomically: if the transport fails or the
  precondition of any operation fails against the table as it is, no operation takes
  effect. \<^verbatim>\<open>failing\<close> tells which requests, counted from 0, fail in transport.
\<close>

record gateway =
  rows :: "Todo list"
  requests :: nat
  failing :: "nat \<Rightarrow> bool"
  scanOmitsItems :: bool

datatype WriteError = transportError | constraintViolation

datatype 'a promise = Rejected | Resolved 'a

fun precondition :: "Todo list \<Rightarrow> TransactWriteItem \<Rightarrow> bool" where
  "precondition table (Put item (Some attribute_not_exists_id)) =
     (todo_id item \<notin> set (map todo_id table))"
| "precondition table _ = True"

fun applyOp :: "Todo list \<Rightarrow> TransactWriteItem \<Rightarrow> Todo list" where
  "applyOp table (Update k v) =
     map (\<lambda>r. if todo_id r = k then r\<lparr>status := v\<rparr> else r) table"
| "applyOp table (Put item cond) =
     filter (\<lambda>r. todo_id r \<noteq> todo_id item) table @ [item]"
| "applyOp table (Delete k) = filter (\<lambda>r. todo_id r \<noteq> k) table"

definition submitBatch :: "Todo list \<Rightarrow> TransactWriteItem list \<Rightarrow> WriteError + Todo list" where
  "submitBatch table ops =
     (if list_all (precondition table) ops then Inr (foldl applyOp table ops)
      else Inl constraintViolation)"

definition request :: "gateway \<Rightarrow> gateway" where
  "request gw = gw\<lparr>requests := Suc (requests gw)\<rparr>"

definition scan :: "gateway \<Rightarrow> Todo list option promise \<times> gateway" where
  "scan gw =
     (if failing gw (requests gw) then (Rejected, request gw)
      else if scanOmitsItems gw then (Resolved None, request gw)
      else (Resolved (Some (rows gw)), request gw))"

definition transactWrite :: "gateway \<Rightarrow> TransactWriteItem list \<Rightarrow> unit promise \<times> gateway" where
  "transactWrite gw ops =
     (if failing gw (requests gw) then (Rejected, request gw)
      else (case submitBatch (rows gw) ops of
              Inl e \<Rightarrow> (Rejected, request gw)
            | Inr table \<Rightarrow> (Resolved (), request (gw\<lparr>rows := table\<rparr>))))"

subsection \<open>The handler\<close>

datatype CustomError = noData | getError

definition getTodoItems :: "gateway \<Rightarrow> (CustomError + Todo list) \<times> gateway" where
  "getTodoItems documentClient =
     (case scan documentClient of
        (Rejected, gw) \<Rightarrow> (Inl getError, gw)
      | (Resolved None, gw) \<Rightarrow> (Inl noData, gw)
      | (Resolved (Some items), gw) \<Rightarrow> (Inr items, gw))"

definition lambdaHandler :: "runtime \<Rightarrow> calls \<Rightarrow> gateway \<Rightarrow> int \<times> gateway" where
  "lambdaHandler rt c documentClient =
     (case getTodoItems documentClient of
        (Inl e, gw) \<Rightarrow> (400, gw)
      | (Inr todoItems, gw) \<Rightarrow>
          (let transactItems = fst (createTransactItems rt c todoItems)
           in if length transactItems = 0 then (200, gw)
              else (case transactWrite gw transactItems of
                      (Rejected, gw') \<Rightarrow> (400, gw')
                    | (Resolved u, gw') \<Rightarrow> (200, gw'))))"

section \<open>The older handler, app.js\<close>

text \<open>
  The functions of \<^verbatim>\<open>src/todo-manage/app.js\<close>. The older handler reads the table through
  the index \<^verbatim>\<open>SortByTargetAt\<close>, one query per status value, and writes one transaction per
  expiring record and one delete request per purged record. Every error is caught and
  logged inside \<^verbatim>\<open>expiredTodo\<close> and \<^verbatim>\<open>deleteTodo\<close>, and the handler answers 200 whatever
  happened. Here a date that does not parse fails the tests, since \<^verbatim>\<open>NaN < 0\<close> is false.
\<close>

text \<open>
  Modelled from the spec: the query and the single delete of the Record Store Gateway.
  The order in which the index returns the rows is not modelled; rows come in table order.
\<close>

definition query :: "gateway \<Rightarrow> int \<Rightarrow> Todo list promise \<times> gateway" where
  "query gw v =
     (if failing gw (requests gw) then (Rejected, request gw)
      else (Resolved (filter (\<lambda>r. status r = v) (rows gw)), request gw))"

definition delete_item :: "gateway \<Rightarrow> string \<Rightarrow> unit promise \<times> gateway" where
  "delete_item gw k =
     (if failing gw (requests gw) then (Rejected, request gw)
      else (Resolved (), request (gw\<lparr>rows := applyOp (rows gw) (Delete k)\<rparr>)))"

text \<open>
  The transaction built for one record of \<^verbatim>\<open>updateTodoList\<close>; \<^verbatim>\<open>updateiSOString\<close> was read
  from the clock once, before the loop.
\<close>

definition transactItems_of ::
  "runtime \<Rightarrow> int \<Rightarrow> calls \<Rightarrow> Todo \<Rightarrow> TransactWriteItem list \<times> calls" where
  "transactItems_of rt updateiSOString c updateTodo =
     (if carryOver updateTodo \<and> length (contentList (carryOverComment_of updateTodo)) > 0 then
        (let targetDate = setDate_add (dates rt (fst c)) resetAddDate
         in ([Update (todo_id updateTodo) 1,
              Put \<lparr> todo_id = uuids rt (snd c),
                    status = status updateTodo,
                    title = title updateTodo,
                    comment = carryOverComment_of updateTodo,
                    url = url updateTodo,
                    targetAt = Date targetDate,
                    carryOver = carryOver updateTodo,
                    createdAt = createdAt updateTodo,
                    updatedAt = Date updateiSOString,
                    updatedUser = updatedUser updateTodo,
                    owner = None \<rparr>
                  (Some attribute_not_exists_id)],
             (Suc (fst c), Suc (snd c))))
      else ([Update (todo_id updateTodo) 1], c))"

text \<open>
  The loop \<^verbatim>\<open>for (const updateTodo of updateTodoList)\<close>. A rejected \<^verbatim>\<open>transactWrite\<close> throws,
  which leaves the loop for the \<^verbatim>\<open>catch\<close> of \<^verbatim>\<open>expiredTodo\<close>. Besides the calls made and the
  store, the result records every transaction the loop passed to \<^verbatim>\<open>transactWrite\<close>, in
  order, with the answer of the store.
\<close>

type_synonym submissions = "(TransactWriteItem list \<times> unit promise) list"

fun expiredTodoLoop ::
  "runtime \<Rightarrow> int \<Rightarrow> calls \<Rightarrow> gateway \<Rightarrow> Todo list \<Rightarrow> submissions \<times> calls \<times> gateway" where
  "expiredTodoLoop rt updateiSOString c gw [] = ([], c, gw)"
| "expiredTodoLoop rt updateiSOString c gw (updateTodo # rest) =
     (let (transactItems, c1) = transactItems_of rt updateiSOString c updateTodo
      in if carryOver updateTodo then
           (case transactWrite gw transactItems of
              (Rejected, gw') \<Rightarrow> ([(transactItems, Rejected)], c1, gw')
            | (Resolved u, gw') \<Rightarrow>
                (let (submitted, c2, gw2) = expiredTodoLoop rt updateiSOString c1 gw' rest
                 in ((transactItems, Resolved u) # submitted, c2, gw2)))
         else expiredTodoLoop rt updateiSOString c1 gw rest)"

definition expiredTodo_due :: "int \<Rightarrow> Todo \<Rightarrow> bool" where
  "expiredTodo_due deleteLimit currentValue =
     (case targetAt currentValue of
        Date updateDate \<Rightarrow> updateDate - deleteLimit < 0
      | InvalidDate \<Rightarrow> False)"

definition expiredTodo ::
  "runtime \<Rightarrow> calls \<Rightarrow> gateway \<Rightarrow> submissions \<times> calls \<times> gateway" where
  "expiredTodo rt c dynamodbClient =
     (case query dynamodbClient 0 of
        (Rejected, gw) \<Rightarrow> ([], c, gw)
      | (Resolved items, gw) \<Rightarrow>
          if length items > 0 then
            (let deleteLimit = setDate_add (dates rt (fst c)) (- flagDeleteDate);
                 updateTodoList = filter (expiredTodo_due deleteLimit) items;
                 updateiSOString = dates rt (Suc (fst c))
             in expiredTodoLoop rt updateiSOString (Suc (Suc (fst c)), snd c) gw updateTodoList)
          else ([], c, gw))"

fun deleteTodoLoop :: "gateway \<Rightarrow> string list \<Rightarrow> gateway" where
  "deleteTodoLoop gw [] = gw"
| "deleteTodoLoop gw (deleteTargetId # rest) =
     (case delete_item gw deleteTargetId of
        (Rejected, gw') \<Rightarrow> gw'
      | (Resolved u, gw') \<Rightarrow> deleteTodoLoop gw' rest)"

definition deleteTodo_due :: "int \<Rightarrow> Todo \<Rightarrow> bool" where
  "deleteTodo_due deleteLimit currentValue =
     (case updatedAt currentValue of
        Date updateDate \<Rightarrow> updateDate - deleteLimit < 0
      | InvalidDate \<Rightarrow> False)"

definition deleteTargetIds :: "int \<Rightarrow> Todo list \<Rightarrow> string list" where
  "deleteTargetIds deleteLimit items = map todo_id (filter (deleteTodo_due deleteLimit) items)"

definition deleteTodo :: "runtime \<Rightarrow> calls \<Rightarrow> gateway \<Rightarrow> calls \<times> gateway" where
  "deleteTodo rt c dynamodbClient =
     (case query dynamodbClient 1 of
        (Rejected, gw) \<Rightarrow> (c, gw)
      | (Resolved todoList, gw) \<Rightarrow>
          if length todoList = 0 then (c, gw)
          else
            (let deleteLimit = setDate_add (dates rt (fst c)) (- dataDeleteDate)
             in ((Suc (fst c), snd c),
                 deleteTodoLoop gw (deleteTargetIds deleteLimit todoList))))"

definition legacy_lambdaHandler :: "runtime \<Rightarrow> calls \<Rightarrow> gateway \<Rightarrow> int \<times> gateway" where
  "legacy_lambdaHandler rt c gw =
     (let (submitted, c1, gw1) = expiredTodo rt c gw;
          (c2, gw2) = deleteTodo rt c1 gw1
      in (200, gw2))"

section \<open>Sample inputs\<close>

text \<open>
  Concrete records, clocks and tables on which the definitions are evaluated. Times are
  in milliseconds; \<^verbatim>\<open>run_time\<close> is day 20000 after the epoch.
\<close>

definition day :: int where "day = 86400000"

definition run_time :: int where "run_time = 20000 * day"

definition sample_todo :: "string \<Rightarrow> int \<Rightarrow> int \<Rightarrow> int \<Rightarrow> bool \<Rightarrow> Content list \<Rightarrow> Todo" where
  "sample_todo i s target updated carry items =
     \<lparr> todo_id = i, status = s, title = ''title of '' @ i,
       comment = \<lparr> commentType = ''list'', freeComment = [], contentList = items \<rparr>,
       url = ''https://example.org/'' @ i, targetAt = Date target, carryOver = carry,
       createdAt = ''2024-01-01T00:00:00.000Z'', updatedAt = Date updated,
       updatedUser = ''user'', owner = Some ''owner'' \<rparr>"

definition open_item :: "string \<Rightarrow> Content" where
  "open_item text = \<lparr> complete = JBool False, content = text \<rparr>"

definition done_item :: "string \<Rightarrow> Content" where
  "done_item text = \<lparr> complete = JBool True, content = text \<rparr>"

text \<open>A clock that advances one millisecond per reading, and identifiers \<^verbatim>\<open>new\<close>,
  \<^verbatim>\<open>newi\<close>, \<^verbatim>\<open>newii\<close>, ...\<close>

definition ticking :: runtime where
  "ticking = \<lparr> dates = (\<lambda>n. run_time + int n),
               uuids = (\<lambda>n. ''new'' @ replicate n (CHR ''i'')) \<rparr>"


definition healthy :: "Todo list \<Rightarrow> gateway" where
  "healthy table = \<lparr> rows = table, requests = 0, failing = (\<lambda>n. False), scanOmitsItems = False \<rparr>"

definition recurring_b :: Todo where
  "recurring_b =
     sample_todo ''b'' 0 (run_time - 7 * day - 500) (run_time - day) True
       [open_item ''x'', done_item ''y'']"

definition recurring_c :: Todo where
  "recurring_c =
     sample_todo ''c'' 0 (run_time - 7 * day - 500) (run_time - day) True
       [done_item ''v'', open_item ''w'']"

text \<open>A recurring record whose sub-items carry every kind of \<^verbatim>\<open>complete\<close> value, and the
  successor the TypeScript handler builds for it from the second clock reading and the
  first identifier of \<^verbatim>\<open>ticking\<close>.\<close>

definition mixed_items :: "Content list" where
  "mixed_items =
     [\<lparr> complete = JUndefined, content = ''a'' \<rparr>, \<lparr> complete = JNull, content = ''b'' \<rparr>,
      \<lparr> complete = JNum 0, content = ''c'' \<rparr>, \<lparr> complete = JStr ''false'', content = ''d'' \<rparr>,
      \<lparr> complete = JBool True, content = ''e'' \<rparr>, \<lparr> complete = JBool False, content = ''f'' \<rparr>]"

definition mixed_record :: Todo where
  "mixed_record = sample_todo ''m'' 0 (run_time - 10 * day) (run_time - day) True mixed_items"

definition mixed_successor :: Todo where
  "mixed_successor =
     \<lparr> todo_id = ''new'', status = 0, title = ''title of m'',
       comment = \<lparr> commentType = ''list'', freeComment = [],
                   contentList = [open_item ''f''] \<rparr>,
       url = ''https://example.org/m'', targetAt = Date (run_time + 1 + 3 * day),
       carryOver = True, createdAt = ''2024-01-01T00:00:00.000Z'',
       updatedAt = Date (run_time + 1), updatedUser = ''user'', owner = None \<rparr>"

text \<open>An identifier generator whose draw is the id of a stored record, a table whose
  write request fails in transport, and a scan that answers without \<^verbatim>\<open>Items\<close>.\<close>

definition colliding :: runtime where
  "colliding = \<lparr> dates = (\<lambda>n. run_time + int n), uuids = (\<lambda>n. ''b'') \<rparr>"

definition write_fails :: "Todo list \<Rightarrow> gateway" where
  "write_fails table =
     \<lparr> rows = table, requests = 0, failing = (\<lambda>n. n = 1), scanOmitsItems = False \<rparr>"

definition scan_without_items :: "Todo list \<Rightarrow> gateway" where
  "scan_without_items table =
     \<lparr> rows = table, requests = 0, failing = (\<lambda>n. False), scanOmitsItems = True \<rparr>"

text \<open>The successor built for \<^verbatim>\<open>recurring_b\<close> when the generator draws the id \<^verbatim>\<open>b\<close>.\<close>

definition colliding_successor :: Todo where
  "colliding_successor =
     \<lparr> todo_id = ''b'', status = 0, title = ''title of b'',
       comment = \<lparr> commentType = ''list'', freeComment = [],
                   contentList = [open_item ''x''] \<rparr>,
       url = ''https://example.org/b'', targetAt = Date (run_time + 1 + 3 * day),
       carryOver = True, createdAt = ''2024-01-01T00:00:00.000Z'',
       updatedAt = Date (run_time + 1), updatedUser = ''user'', owner = None \<rparr>"

text \<open>A table whose third request fails in transport.\<close>

definition third_request_fails :: "Todo list \<Rightarrow> gateway" where
  "third_request_fails table =
     \<lparr> rows = table, requests = 0, failing = (\<lambda>n. n = 2), scanOmitsItems = False \<rparr>"

text \<open>A table whose first request fails in transport.\<close>

definition read_fails :: "Todo list \<Rightarrow> gateway" where
  "read_fails table =
     \<lparr> rows = table, requests = 0, failing = (\<lambda>n. n = 0), scanOmitsItems = False \<rparr>"

section \<open>Reading a batch\<close>

fun isPut :: "TransactWriteItem \<Rightarrow> bool" where
  "isPut (Put item cond) = True"
| "isPut _ = False"


fun putItem :: "TransactWriteItem \<Rightarrow> Todo option" where
  "putItem (Put item cond) = Some item"
| "putItem _ = None"

text \<open>The successor records a batch creates, in batch order.\<close>

definition successors :: "TransactWriteItem list \<Rightarrow> Todo list" where
  "successors batch = List.map_filter putItem batch"


section \<open>The decisions of a run, record by record\<close>

text \<open>
  The records a run selects for expiry, in snapshot order: those that pass the test of
  \<^verbatim>\<open>createExpiredTransactItems\<close>, and for the older handler those among the rows of status 0
  that pass the test of \<^verbatim>\<open>expiredTodo\<close>.
\<close>

definition expiring :: "runtime \<Rightarrow> calls \<Rightarrow> Todo list \<Rightarrow> Todo list" where
  "expiring rt c todoItems =
     filter (expiryEligible (setDate_add (dates rt (fst c)) (- flagDeleteDate))) todoItems"

definition legacy_expiring :: "runtime \<Rightarrow> calls \<Rightarrow> gateway \<Rightarrow> Todo list" where
  "legacy_expiring rt c gw =
     filter (expiredTodo_due (setDate_add (dates rt (fst c)) (- flagDeleteDate)))
       (filter (\<lambda>r. status r = 0) (rows gw))"

text \<open>A record carries over when it is recurring and has a sub-item that is not complete.\<close>

definition carries :: "Todo \<Rightarrow> bool" where
  "carries t \<longleftrightarrow> carryOver t \<and> (\<exists>x\<in>set (contentList (comment t)). complete x = JBool False)"

text \<open>
  The successor of a record in the words of the specification, section 4.2, from the
  clock reading \<^verbatim>\<open>now\<close> and the identifier \<^verbatim>\<open>fresh\<close>: status, title, url, carryOver,
  createdAt and updatedUser copied, the comment filtered to the sub-items that are not
  complete, targetAt three days after \<^verbatim>\<open>now\<close>, updatedAt \<^verbatim>\<open>now\<close>, no owner.
\<close>

definition successor_of :: "int \<Rightarrow> string \<Rightarrow> Todo \<Rightarrow> Todo" where
  "successor_of now fresh t =
     \<lparr> todo_id = fresh, status = status t, title = title t,
       comment = \<lparr> commentType = commentType (comment t),
                   freeComment = freeComment (comment t),
                   contentList = filter (\<lambda>x. complete x = JBool False)
                                   (contentList (comment t)) \<rparr>,
       url = url t, targetAt = Date (now + 3 * 86400000), carryOver = carryOver t,
       createdAt = createdAt t, updatedAt = Date now, updatedUser = updatedUser t,
       owner = None \<rparr>"

text \<open>
  The expiry items record by record, in the order of the records: for each record its
  status update, unless \<^verbatim>\<open>superseded\<close> holds of its id, directly followed by the conditioned
  create of its successor if the record carries over. The successor of the first carrying
  record takes the clock reading \<^verbatim>\<open>nd\<close> and the identifier \<^verbatim>\<open>nu\<close>, the next one the next
  reading and the next identifier.
\<close>

fun expiry_items_in_order ::
  "(string \<Rightarrow> bool) \<Rightarrow> runtime \<Rightarrow> nat \<Rightarrow> nat \<Rightarrow> Todo list \<Rightarrow> TransactWriteItem list" where
  "expiry_items_in_order superseded rt nd nu [] = []"
| "expiry_items_in_order superseded rt nd nu (t # ts) =
     (if superseded (todo_id t) then [] else [Update (todo_id t) 1])
     @ (if carries t then
          Put (successor_of (dates rt nd) (uuids rt nu) t) (Some attribute_not_exists_id)
            # expiry_items_in_order superseded rt (Suc nd) (Suc nu) ts
        else expiry_items_in_order superseded rt nd nu ts)"

text \<open>
  The transactions of the older handler record by record: none for a record that is not
  recurring; for a recurring record its status update, followed by the conditioned create
  of its successor if it carries over, the successor's \<^verbatim>\<open>updatedAt\<close> being the one reading
  \<^verbatim>\<open>u\<close> of the run.
\<close>

fun legacy_transactions_in_order ::
  "runtime \<Rightarrow> int \<Rightarrow> nat \<Rightarrow> nat \<Rightarrow> Todo list \<Rightarrow> TransactWriteItem list list" where
  "legacy_transactions_in_order rt u nd nu [] = []"
| "legacy_transactions_in_order rt u nd nu (t # ts) =
     (if carries t then
        [Update (todo_id t) 1,
         Put ((successor_of (dates rt nd) (uuids rt nu) t)\<lparr>updatedAt := Date u\<rparr>)
           (Some attribute_not_exists_id)]
          # legacy_transactions_in_order rt u (Suc nd) (Suc nu) ts
      else if carryOver t then
        [Update (todo_id t) 1] # legacy_transactions_in_order rt u nd nu ts
      else legacy_transactions_in_order rt u nd nu ts)"

text \<open>The successors of a run, one for each record that carries over, in the order of the
  records: the first takes the clock reading \<^verbatim>\<open>nd\<close> and the identifier \<^verbatim>\<open>nu\<close>, the one at
  position \<^verbatim>\<open>i\<close> the reading \<^verbatim>\<open>nd + i\<close> and the identifier \<^verbatim>\<open>nu + i\<close>.\<close>

definition successors_in_order :: "runtime \<Rightarrow> nat \<Rightarrow> nat \<Rightarrow> Todo list \<Rightarrow> Todo list" where
  "successors_in_order rt nd nu ts =
     map (\<lambda>(i, t). successor_of (dates rt (nd + i)) (uuids rt (nu + i)) t)
       (enumerate 0 (filter carries ts))"



section \<open>Structure of the expiry loop\<close>

lemma expiredLoop_Cons:
  "fst (expiredLoop rt c (t # ts)) =
     (if carryOver t \<and> contentList (carryOverComment_of t) \<noteq> [] then
        createTransactItemForStatusUpdate t
          # fst (createTransactItemForNewDedlineTodo rt c t (carryOverComment_of t))
          # fst (expiredLoop rt (Suc (fst c), Suc (snd c)) ts)
      else createTransactItemForStatusUpdate t # fst (expiredLoop rt c ts))"
  by (simp add: createTransactItemForNewDedlineTodo_def Let_def case_prod_beta)

lemma expiredLoop_updates:
  "filter hasUpdate (fst (expiredLoop rt c ts)) = map createTransactItemForStatusUpdate ts"
  by (induction ts arbitrary: c)
     (simp_all add: expiredLoop_Cons createTransactItemForStatusUpdate_def
        createTransactItemForNewDedlineTodo_def Let_def del: expiredLoop.simps(2))

lemma expiredLoop_no_Delete: "Delete k \<notin> set (fst (expiredLoop rt c ts))"
  by (induction ts arbitrary: c)
     (simp_all add: expiredLoop_Cons createTransactItemForStatusUpdate_def
        createTransactItemForNewDedlineTodo_def Let_def del: expiredLoop.simps(2))

lemma expiredLoop_Put:
  "Put p cond \<in> set (fst (expiredLoop rt c ts)) \<Longrightarrow>
   \<exists>t\<in>set ts. \<exists>j. carryOver t \<and> contentList (carryOverComment_of t) \<noteq> [] \<and>
      Put p cond = fst (createTransactItemForNewDedlineTodo rt (fst c + j, snd c + j) t
                         (carryOverComment_of t))"
proof (induction ts arbitrary: c)
  case Nil
  then show ?case by simp
next
  case (Cons t ts)
  show ?case
  proof (cases "carryOver t \<and> contentList (carryOverComment_of t) \<noteq> []")
    case False
    with Cons.prems have "Put p cond \<in> set (fst (expiredLoop rt c ts))"
      by (simp add: expiredLoop_Cons createTransactItemForStatusUpdate_def del: expiredLoop.simps(2))
    from Cons.IH[OF this] show ?thesis by auto
  next
    case True
    let ?c1 = "(Suc (fst c), Suc (snd c))"
    from True Cons.prems have
      "Put p cond = fst (createTransactItemForNewDedlineTodo rt c t (carryOverComment_of t))
       \<or> Put p cond \<in> set (fst (expiredLoop rt ?c1 ts))"
      by (simp add: expiredLoop_Cons createTransactItemForStatusUpdate_def del: expiredLoop.simps(2))
    then show ?thesis
    proof
      assume "Put p cond = fst (createTransactItemForNewDedlineTodo rt c t (carryOverComment_of t))"
      then have "Put p cond = fst (createTransactItemForNewDedlineTodo rt (fst c + 0, snd c + 0) t (carryOverComment_of t))"
        by simp
      with True show ?thesis by (metis list.set_intros(1))
    next
      assume "Put p cond \<in> set (fst (expiredLoop rt ?c1 ts))"
      from Cons.IH[OF this] obtain t' j where t': "t' \<in> set ts" "carryOver t'"
        "contentList (carryOverComment_of t') \<noteq> []"
        "Put p cond = fst (createTransactItemForNewDedlineTodo rt (fst ?c1 + j, snd ?c1 + j) t'
                         (carryOverComment_of t'))" by blast
      then have "Put p cond = fst (createTransactItemForNewDedlineTodo rt (fst c + Suc j, snd c + Suc j) t'
                         (carryOverComment_of t'))" by simp
      with t' show ?thesis by (metis list.set_intros(2))
    qed
  qed
qed

lemma createExpiredTransactItems_Put:
  assumes "Put p cond \<in> set (fst (createExpiredTransactItems rt c todoItems))"
  shows "\<exists>t\<in>set todoItems. \<exists>j.
           expiryEligible (setDate_add (dates rt (fst c)) (- flagDeleteDate)) t \<and>
           carryOver t \<and> contentList (carryOverComment_of t) \<noteq> [] \<and>
           Put p cond = fst (createTransactItemForNewDedlineTodo rt (Suc (fst c) + j, snd c + j) t
                              (carryOverComment_of t))"
  using expiredLoop_Put[of p cond rt "(Suc (fst c), snd c)"
          "filter (expiryEligible (setDate_add (dates rt (fst c)) (- flagDeleteDate))) todoItems"]
        assms
  by (auto simp: createExpiredTransactItems_def Let_def)

lemma deletes_only_Delete:
  "item \<in> set (fst (createDeleteTransactItems rt c todoItems ids)) \<Longrightarrow> \<exists>k. item = Delete k"
  by (auto simp: createDeleteTransactItems_def Let_def)

section \<open>Structure of the batch\<close>

text \<open>The batch: the expiry items without the superseded updates, then the deletes.\<close>

lemma createTransactItems_eq:
  "fst (createTransactItems rt c todoItems) =
     (let expired = createExpiredTransactItems rt c todoItems;
          deletes = fst (createDeleteTransactItems rt (snd expired) todoItems
                          (map updateKeyId (filter hasUpdate (fst expired))))
      in filter (\<lambda>item. \<forall>k v. item = Update k v \<longrightarrow> Delete k \<notin> set deletes) (fst expired)
           @ deletes)"
proof -
  obtain ex c1 where ex: "createExpiredTransactItems rt c todoItems = (ex, c1)"
    by (cases "createExpiredTransactItems rt c todoItems")
  let ?ids = "map updateKeyId (filter hasUpdate ex)"
  obtain dl c2 where dl: "createDeleteTransactItems rt c1 todoItems ?ids = (dl, c2)"
    by (cases "createDeleteTransactItems rt c1 todoItems ?ids")
  have only: "\<And>item. item \<in> set dl \<Longrightarrow> \<exists>k. item = Delete k"
    using deletes_only_Delete[of _ rt c1 todoItems ?ids] dl by simp
  have some: "\<And>d. d \<in> set dl \<Longrightarrow> deleteKeyId d \<noteq> None"
    using only by force
  have none: "None \<notin> set (map deleteKeyId (filter P dl))" for P
  proof
    assume "None \<in> set (map deleteKeyId (filter P dl))"
    then obtain d where "d \<in> set dl" "deleteKeyId d = None" by auto
    with some show False by blast
  qed
  have keep: "updateKeyId item \<notin> set (map deleteKeyId (filter (\<lambda>d. deleteKeyId d \<in> set ?ids) dl))
           \<longleftrightarrow> (\<forall>k v. item = Update k v \<longrightarrow> Delete k \<notin> set dl)" if "item \<in> set ex" for item
  proof (cases item)
    case (Update k v)
    have "Some k \<in> set ?ids" using that Update by force
    moreover have "Some k \<in> deleteKeyId ` {d \<in> set dl. deleteKeyId d \<in> set ?ids}
             \<longleftrightarrow> Delete k \<in> set dl \<and> Some k \<in> set ?ids"
      using only by (force simp: image_iff)
    ultimately show ?thesis using Update by auto
  next
    case (Put p cond)
    then show ?thesis using none[of "\<lambda>d. deleteKeyId d \<in> set ?ids"] by simp
  next
    case (Delete k)
    then show ?thesis using none[of "\<lambda>d. deleteKeyId d \<in> set ?ids"] by simp
  qed
  have "filter (\<lambda>item. updateKeyId item \<notin> set (map deleteKeyId (filter (\<lambda>d. deleteKeyId d \<in> set ?ids) dl))) ex
      = filter (\<lambda>item. \<forall>k v. item = Update k v \<longrightarrow> Delete k \<notin> set dl) ex"
    by (rule filter_cong[OF refl]) (use keep in blast)
  then show ?thesis
    by (simp add: createTransactItems_def ex dl Let_def)
qed

lemma createTransactItems_Put:
  "Put p cond \<in> set (fst (createTransactItems rt c todoItems)) \<longleftrightarrow>
   Put p cond \<in> set (fst (createExpiredTransactItems rt c todoItems))"
  using deletes_only_Delete by (fastforce simp: createTransactItems_eq Let_def)

section \<open>Successor records of a batch\<close>

lemma successors_simps:
  "successors [] = []"
  "successors (Update k v # items) = successors items"
  "successors (Put p cond # items) = p # successors items"
  "successors (Delete k # items) = successors items"
  by (simp_all add: successors_def List.map_filter_simps)

lemma successors_expiredLoop_Cons:
  "successors (fst (expiredLoop rt c (t # ts))) =
     (if carryOver t \<and> contentList (carryOverComment_of t) \<noteq> [] then
        successors [fst (createTransactItemForNewDedlineTodo rt c t (carryOverComment_of t))]
          @ successors (fst (expiredLoop rt (Suc (fst c), Suc (snd c)) ts))
      else successors (fst (expiredLoop rt c ts)))"
  by (simp add: expiredLoop_Cons successors_simps createTransactItemForStatusUpdate_def
        createTransactItemForNewDedlineTodo_def Let_def del: expiredLoop.simps(2))

lemma upt_shift: "[a ..< a + Suc n] = a # [Suc a ..< Suc a + n]"
  by (subst upt_rec) simp

lemma successors_expiredLoop_ids:
  "map todo_id (successors (fst (expiredLoop rt c ts))) =
     map (uuids rt) [snd c ..< snd c + length (successors (fst (expiredLoop rt c ts)))]"
proof (induction ts arbitrary: c)
  case Nil
  show ?case by (simp add: successors_simps)
next
  case (Cons t ts)
  show ?case
  proof (cases "carryOver t \<and> contentList (carryOverComment_of t) \<noteq> []")
    case False
    then have "successors (fst (expiredLoop rt c (t # ts))) = successors (fst (expiredLoop rt c ts))"
      by (auto simp: successors_expiredLoop_Cons simp del: expiredLoop.simps(2))
    then show ?thesis using Cons.IH[of c] by (simp del: expiredLoop.simps(2))
  next
    case True
    let ?p = "fst (createTransactItemForNewDedlineTodo rt c t (carryOverComment_of t))"
    let ?rest = "successors (fst (expiredLoop rt (Suc (fst c), Suc (snd c)) ts))"
    from True have eq: "successors (fst (expiredLoop rt c (t # ts))) = successors [?p] @ ?rest"
      by (simp add: successors_expiredLoop_Cons del: expiredLoop.simps(2))
    obtain p where p: "successors [?p] = [p]" "todo_id p = uuids rt (snd c)"
      "updatedAt p = Date (dates rt (fst c))"
      by (simp add: createTransactItemForNewDedlineTodo_def Let_def successors_simps)
    have len: "length (successors (fst (expiredLoop rt c (t # ts)))) = Suc (length ?rest)"
      using eq p by simp
    have ih: "map todo_id ?rest = map (uuids rt) [Suc (snd c) ..< Suc (snd c) + length ?rest]"
      using Cons.IH[of "(Suc (fst c), Suc (snd c))"] by (simp only: fst_conv snd_conv)
    have "map todo_id (successors (fst (expiredLoop rt c (t # ts))))
        = uuids rt (snd c) # map todo_id ?rest"
      using eq p by simp
    also have "\<dots> = uuids rt (snd c) # map (uuids rt) [Suc (snd c) ..< Suc (snd c) + length ?rest]"
      by (simp only: ih)
    also have "\<dots> = map (uuids rt) [snd c ..< snd c + Suc (length ?rest)]"
      by (simp only: upt_shift list.map)
    finally show ?thesis by (simp only: len)
  qed
qed

lemma successors_expiredLoop_updatedAt:
  "map updatedAt (successors (fst (expiredLoop rt c ts))) =
     map (\<lambda>j. Date (dates rt j))
       [fst c ..< fst c + length (successors (fst (expiredLoop rt c ts)))]"
proof (induction ts arbitrary: c)
  case Nil
  show ?case by (simp add: successors_simps)
next
  case (Cons t ts)
  show ?case
  proof (cases "carryOver t \<and> contentList (carryOverComment_of t) \<noteq> []")
    case False
    then have "successors (fst (expiredLoop rt c (t # ts))) = successors (fst (expiredLoop rt c ts))"
      by (auto simp: successors_expiredLoop_Cons simp del: expiredLoop.simps(2))
    then show ?thesis using Cons.IH[of c] by (simp del: expiredLoop.simps(2))
  next
    case True
    let ?p = "fst (createTransactItemForNewDedlineTodo rt c t (carryOverComment_of t))"
    let ?rest = "successors (fst (expiredLoop rt (Suc (fst c), Suc (snd c)) ts))"
    from True have eq: "successors (fst (expiredLoop rt c (t # ts))) = successors [?p] @ ?rest"
      by (simp add: successors_expiredLoop_Cons del: expiredLoop.simps(2))
    obtain p where p: "successors [?p] = [p]" "todo_id p = uuids rt (snd c)"
      "updatedAt p = Date (dates rt (fst c))"
      by (simp add: createTransactItemForNewDedlineTodo_def Let_def successors_simps)
    have len: "length (successors (fst (expiredLoop rt c (t # ts)))) = Suc (length ?rest)"
      using eq p by simp
    have ih: "map updatedAt ?rest = map (\<lambda>j. Date (dates rt j)) [Suc (fst c) ..< Suc (fst c) + length ?rest]"
      using Cons.IH[of "(Suc (fst c), Suc (snd c))"] by (simp only: fst_conv snd_conv)
    have "map updatedAt (successors (fst (expiredLoop rt c (t # ts))))
        = Date (dates rt (fst c)) # map updatedAt ?rest"
      using eq p by simp
    also have "\<dots> = Date (dates rt (fst c)) # map (\<lambda>j. Date (dates rt j)) [Suc (fst c) ..< Suc (fst c) + length ?rest]"
      by (simp only: ih)
    also have "\<dots> = map (\<lambda>j. Date (dates rt j)) [fst c ..< fst c + Suc (length ?rest)]"
      by (simp only: upt_shift list.map)
    finally show ?thesis by (simp only: len)
  qed
qed

lemma successors_append: "successors (xs @ ys) = successors xs @ successors ys"
  by (simp add: successors_def List.map_filter_def)

lemma successors_filter:
  "(\<And>x. x \<in> set xs \<Longrightarrow> isPut x \<Longrightarrow> P x) \<Longrightarrow> successors (filter P xs) = successors xs"
proof (induction xs)
  case Nil
  show ?case by simp
next
  case (Cons x xs)
  then show ?case by (cases x) (auto simp: successors_simps)
qed

lemma successors_deletes:
  "successors (fst (createDeleteTransactItems rt c todoItems ids)) = []"
  by (simp add: createDeleteTransactItems_def Let_def successors_def List.map_filter_def
        filter_empty_conv)

lemma successors_createTransactItems:
  "successors (fst (createTransactItems rt c todoItems)) =
   successors (fst (createExpiredTransactItems rt c todoItems))"
  by (simp add: createTransactItems_eq Let_def successors_append successors_deletes)
     (rule successors_filter, auto)


lemma batch_successor:
  assumes "Put p cond \<in> set (fst (createTransactItems rt c todoItems))"
  shows "\<exists>t\<in>set todoItems. \<exists>j.
           expiryEligible (setDate_add (dates rt (fst c)) (- flagDeleteDate)) t \<and>
           carryOver t \<and> contentList (carryOverComment_of t) \<noteq> [] \<and>
           Put p cond = fst (createTransactItemForNewDedlineTodo rt (Suc (fst c) + j, snd c + j) t
                              (carryOverComment_of t))"
  using assms createExpiredTransactItems_Put by (simp add: createTransactItems_Put)


section \<open>The handler and the store\<close>

lemma rows_request: "rows (request gw) = rows gw"
  by (simp add: request_def)

lemma transactWrite_Rejected:
  "fst (transactWrite gw ops) = Rejected \<Longrightarrow> rows (snd (transactWrite gw ops)) = rows gw"
  by (auto simp: transactWrite_def rows_request split: if_splits sum.splits)

lemma collision_violates:
  assumes "Put p (Some attribute_not_exists_id) \<in> set ops"
      and "todo_id p \<in> set (map todo_id table)"
  shows "\<not> list_all (precondition table) ops"
proof
  assume "list_all (precondition table) ops"
  with assms(1) have "precondition table (Put p (Some attribute_not_exists_id))"
    unfolding list_all_iff by blast
  with assms(2) show False by simp
qed

lemma lambdaHandler_eq:
  "lambdaHandler rt c gw =
     (if failing gw (requests gw) \<or> scanOmitsItems gw then (400, request gw)
      else if fst (createTransactItems rt c (rows gw)) = [] then (200, request gw)
      else if failing gw (Suc (requests gw))
              \<or> \<not> list_all (precondition (rows gw)) (fst (createTransactItems rt c (rows gw)))
           then (400, request (request gw))
      else (200, request ((request gw)\<lparr>rows :=
                 foldl applyOp (rows gw) (fst (createTransactItems rt c (rows gw)))\<rparr>)))"
  by (simp add: lambdaHandler_def getTodoItems_def scan_def transactWrite_def submitBatch_def
        request_def Let_def)

text \<open>The older handler answers 200 whatever the store did.\<close>

lemma legacy_lambdaHandler_200: "fst (legacy_lambdaHandler rt c gw) = 200"
  by (simp add: legacy_lambdaHandler_def case_prod_beta)



section \<open>The expiry decision in the batch\<close>

lemma createExpiredTransactItems_Update:
  "Update k v \<in> set (fst (createExpiredTransactItems rt c todoItems)) \<longleftrightarrow>
     v = 1 \<and> (\<exists>t\<in>set todoItems. todo_id t = k \<and>
                 expiryEligible (setDate_add (dates rt (fst c)) (- flagDeleteDate)) t)"
proof -
  let ?E = "fst (createExpiredTransactItems rt c todoItems)"
  have "Update k v \<in> set ?E \<longleftrightarrow> Update k v \<in> set (filter hasUpdate ?E)" by simp
  also have "\<dots> \<longleftrightarrow> Update k v \<in> set (map createTransactItemForStatusUpdate
      (filter (expiryEligible (setDate_add (dates rt (fst c)) (- flagDeleteDate))) todoItems))"
    by (simp only: createExpiredTransactItems_def Let_def expiredLoop_updates)
  also have "\<dots> \<longleftrightarrow> v = 1 \<and> (\<exists>t\<in>set todoItems. todo_id t = k \<and>
                 expiryEligible (setDate_add (dates rt (fst c)) (- flagDeleteDate)) t)"
    by (auto simp: createTransactItemForStatusUpdate_def)
  finally show ?thesis .
qed

text \<open>
  The general rule of the first testable property holds: an Active record that is due is
  flagged in the batch, unless a delete of the batch has its id, and then no update of the
  batch has.
\<close>

lemma due_record_flagged_or_superseded:
  assumes "t \<in> set todoItems" and "status t = 0" and "targetAt t = Date d"
      and "d \<le> setDate_add (dates rt (fst c)) (- flagDeleteDate)"
  shows "if Delete (todo_id t) \<in> set (fst (createTransactItems rt c todoItems))
         then \<forall>v. Update (todo_id t) v \<notin> set (fst (createTransactItems rt c todoItems))
         else Update (todo_id t) 1 \<in> set (fst (createTransactItems rt c todoItems))"
proof -
  let ?E = "fst (createExpiredTransactItems rt c todoItems)"
  let ?D = "fst (createDeleteTransactItems rt (snd (createExpiredTransactItems rt c todoItems))
              todoItems (map updateKeyId (filter hasUpdate ?E)))"
  let ?batch = "fst (createTransactItems rt c todoItems)"
  have b: "?batch = filter (\<lambda>item. \<forall>k v. item = Update k v \<longrightarrow> Delete k \<notin> set ?D) ?E @ ?D"
    by (simp add: createTransactItems_eq Let_def)
  have only: "\<And>item. item \<in> set ?D \<Longrightarrow> \<exists>k. item = Delete k"
    by (rule deletes_only_Delete)
  have noD: "\<And>k. Delete k \<notin> set ?E"
    using expiredLoop_no_Delete[of _ rt "(Suc (fst c), snd c)"]
    by (simp add: createExpiredTransactItems_def Let_def)
  have del: "Delete k \<in> set ?batch \<longleftrightarrow> Delete k \<in> set ?D" for k
    using noD by (auto simp: b)
  have upd: "Update k v \<in> set ?batch \<longleftrightarrow> Update k v \<in> set ?E \<and> Delete k \<notin> set ?D" for k v
    using only by (auto simp: b)
  from assms have "expiryEligible (setDate_add (dates rt (fst c)) (- flagDeleteDate)) t"
    by (simp add: expiryEligible_def)
  with assms(1) have "Update (todo_id t) 1 \<in> set ?E"
    by (auto simp: createExpiredTransactItems_Update)
  then show ?thesis by (simp add: del upd)
qed


section \<open>The loops, record by record\<close>

lemma carries_iff: "carries t \<longleftrightarrow> carryOver t \<and> contentList (carryOverComment_of t) \<noteq> []"
  by (auto simp: carries_def carryOverComment_of_def filter_empty_conv)

lemma new_deadline_successor:
  "createTransactItemForNewDedlineTodo rt c t (carryOverComment_of t) =
     (Put (successor_of (dates rt (fst c)) (uuids rt (snd c)) t) (Some attribute_not_exists_id),
      (Suc (fst c), Suc (snd c)))"
  by (simp add: createTransactItemForNewDedlineTodo_def successor_of_def carryOverComment_of_def
        setDate_add_def resetAddDate_def Let_def)

lemma expiredLoop_in_order:
  "fst (expiredLoop rt c ts) = expiry_items_in_order (\<lambda>k. False) rt (fst c) (snd c) ts"
proof (induction ts arbitrary: c)
  case Nil
  show ?case by simp
next
  case (Cons t ts)
  show ?case
  proof (cases "carries t")
    case True
    then have "carryOver t \<and> contentList (carryOverComment_of t) \<noteq> []"
      by (simp add: carries_iff)
    then show ?thesis
      using True Cons.IH[of "(Suc (fst c), Suc (snd c))"]
      by (simp add: expiredLoop_Cons new_deadline_successor
            createTransactItemForStatusUpdate_def del: expiredLoop.simps(2))
  next
    case False
    then have "\<not> (carryOver t \<and> contentList (carryOverComment_of t) \<noteq> [])"
      by (simp add: carries_iff)
    then have "fst (expiredLoop rt c (t # ts))
        = createTransactItemForStatusUpdate t # fst (expiredLoop rt c ts)"
      by (auto simp: expiredLoop_Cons simp del: expiredLoop.simps(2))
    then show ?thesis
      using False Cons.IH[of c]
      by (simp add: createTransactItemForStatusUpdate_def del: expiredLoop.simps(2))
  qed
qed

lemma expiredLoop_calls:
  "snd (expiredLoop rt c ts) =
     (fst c + length (filter carries ts), snd c + length (filter carries ts))"
proof (induction ts arbitrary: c)
  case Nil
  show ?case by simp
next
  case (Cons t ts)
  show ?case
    using Cons.IH[of c] Cons.IH[of "(Suc (fst c), Suc (snd c))"]
    by (cases "carries t")
       (auto simp: carries_iff new_deadline_successor case_prod_beta Let_def)
qed

lemma createExpiredTransactItems_in_order:
  "fst (createExpiredTransactItems rt c todoItems)
     = expiry_items_in_order (\<lambda>k. False) rt (Suc (fst c)) (snd c) (expiring rt c todoItems)"
  "snd (createExpiredTransactItems rt c todoItems)
     = (Suc (fst c) + length (filter carries (expiring rt c todoItems)),
        snd c + length (filter carries (expiring rt c todoItems)))"
  by (simp_all add: createExpiredTransactItems_def expiring_def Let_def expiredLoop_in_order
        expiredLoop_calls)


lemma enumerate_shift:
  "map (\<lambda>(i, t). g i t) (enumerate (Suc n) xs) = map (\<lambda>(i, t). g (Suc i) t) (enumerate n xs)"
  by (induction xs arbitrary: n) simp_all

lemma successors_in_order_Cons:
  "successors_in_order rt nd nu (t # ts) =
     (if carries t then successor_of (dates rt nd) (uuids rt nu) t
                          # successors_in_order rt (Suc nd) (Suc nu) ts
      else successors_in_order rt nd nu ts)"
  by (simp add: successors_in_order_def
        enumerate_shift[of "\<lambda>i t. successor_of (dates rt (nd + i)) (uuids rt (nu + i)) t" 0])

lemma successors_in_order_Nil: "successors_in_order rt nd nu [] = []"
  by (simp add: successors_in_order_def)

lemma successors_expiry_items:
  "successors (expiry_items_in_order superseded rt nd nu ts) = successors_in_order rt nd nu ts"
  by (induction ts arbitrary: nd nu)
     (simp_all add: successors_simps successors_append successors_in_order_Cons
        successors_in_order_Nil)

lemma successors_legacy_transactions:
  "successors (concat (legacy_transactions_in_order rt u nd nu ts))
     = map (\<lambda>p. p\<lparr>updatedAt := Date u\<rparr>) (successors_in_order rt nd nu ts)"
  by (induction ts arbitrary: nd nu)
     (simp_all add: successors_simps successors_append successors_in_order_Cons
        successors_in_order_Nil)

lemma transactItems_of_eq:
  "transactItems_of rt u c t =
     (if carries t then
        ([Update (todo_id t) 1,
          Put ((successor_of (dates rt (fst c)) (uuids rt (snd c)) t)\<lparr>updatedAt := Date u\<rparr>)
            (Some attribute_not_exists_id)],
         (Suc (fst c), Suc (snd c)))
      else ([Update (todo_id t) 1], c))"
  by (auto simp: transactItems_of_def carries_iff successor_of_def carryOverComment_of_def
        setDate_add_def resetAddDate_def Let_def)

lemma expiredTodoLoop_prefix:
  "map fst (fst (expiredTodoLoop rt u c gw ts))
     = take (length (fst (expiredTodoLoop rt u c gw ts)))
         (legacy_transactions_in_order rt u (fst c) (snd c) ts)"
proof (induction ts arbitrary: c gw)
  case Nil
  show ?case by simp
next
  case (Cons t ts)
  show ?case
  proof (cases "carryOver t")
    case False
    then have "\<not> carries t" by (simp add: carries_def)
    with False show ?thesis using Cons.IH[of c gw]
      by (simp add: transactItems_of_eq)
  next
    case True
    obtain tx c1 where tx: "transactItems_of rt u c t = (tx, c1)"
      by (cases "transactItems_of rt u c t")
    obtain answer gw' where w: "transactWrite gw tx = (answer, gw')"
      by (cases "transactWrite gw tx")
    have planned: "legacy_transactions_in_order rt u (fst c) (snd c) (t # ts)
        = tx # legacy_transactions_in_order rt u (fst c1) (snd c1) ts"
      using tx True by (auto simp: transactItems_of_eq split: if_splits)
    show ?thesis
    proof (cases answer)
      case Rejected
      with True tx w planned show ?thesis by simp
    next
      case (Resolved x)
      with True tx w planned Cons.IH[of c1 gw'] show ?thesis
        by (simp add: case_prod_beta)
    qed
  qed
qed

lemma expiredTodoLoop_complete:
  "Rejected \<notin> set (map snd (fst (expiredTodoLoop rt u c gw ts))) \<Longrightarrow>
   map fst (fst (expiredTodoLoop rt u c gw ts))
     = legacy_transactions_in_order rt u (fst c) (snd c) ts"
proof (induction ts arbitrary: c gw)
  case Nil
  show ?case by simp
next
  case (Cons t ts)
  show ?case
  proof (cases "carryOver t")
    case False
    then have "\<not> carries t" by (simp add: carries_def)
    with False show ?thesis using Cons.IH[of c gw] Cons.prems
      by (simp add: transactItems_of_eq)
  next
    case True
    obtain tx c1 where tx: "transactItems_of rt u c t = (tx, c1)"
      by (cases "transactItems_of rt u c t")
    obtain answer gw' where w: "transactWrite gw tx = (answer, gw')"
      by (cases "transactWrite gw tx")
    have planned: "legacy_transactions_in_order rt u (fst c) (snd c) (t # ts)
        = tx # legacy_transactions_in_order rt u (fst c1) (snd c1) ts"
      using tx True by (auto simp: transactItems_of_eq split: if_splits)
    show ?thesis
    proof (cases answer)
      case Rejected
      with True tx w Cons.prems show ?thesis by simp
    next
      case (Resolved x)
      with True tx w Cons.prems
      have "Rejected \<notin> set (map snd (fst (expiredTodoLoop rt u c1 gw' ts)))"
        by (simp add: case_prod_beta)
      from Cons.IH[OF this] Resolved True tx w planned show ?thesis
        by (simp add: case_prod_beta)
    qed
  qed
qed

lemma expiredTodo_submitted:
  "fst (expiredTodo rt c gw) =
     (if failing gw (requests gw) then []
      else fst (expiredTodoLoop rt (dates rt (Suc (fst c))) (Suc (Suc (fst c)), snd c)
                  (request gw) (legacy_expiring rt c gw)))"
proof (cases "filter (\<lambda>r. status r = 0) (rows gw) = []")
  case True
  then have "legacy_expiring rt c gw = []" by (simp add: legacy_expiring_def)
  with True show ?thesis by (simp add: expiredTodo_def query_def)
next
  case False
  then show ?thesis by (simp add: expiredTodo_def query_def legacy_expiring_def Let_def)
qed

lemma expiredTodo_prefix:
  "map fst (fst (expiredTodo rt c gw))
     = take (length (fst (expiredTodo rt c gw)))
         (legacy_transactions_in_order rt (dates rt (Suc (fst c))) (Suc (Suc (fst c))) (snd c)
            (legacy_expiring rt c gw))"
  using expiredTodoLoop_prefix[of rt "dates rt (Suc (fst c))" "(Suc (Suc (fst c)), snd c)"
          "request gw" "legacy_expiring rt c gw"]
  by (simp add: expiredTodo_submitted)

lemma expiredTodoLoop_butlast:
  "Rejected \<notin> set (map snd (butlast (fst (expiredTodoLoop rt u c gw ts))))"
proof (induction ts arbitrary: c gw)
  case Nil
  show ?case by simp
next
  case (Cons t ts)
  show ?case
  proof (cases "carryOver t")
    case False
    then have "\<not> carries t" by (simp add: carries_def)
    with False show ?thesis using Cons.IH[of c gw]
      by (simp add: transactItems_of_eq)
  next
    case True
    obtain tx c1 where tx: "transactItems_of rt u c t = (tx, c1)"
      by (cases "transactItems_of rt u c t")
    obtain answer gw' where w: "transactWrite gw tx = (answer, gw')"
      by (cases "transactWrite gw tx")
    show ?thesis
    proof (cases answer)
      case Rejected
      with True tx w show ?thesis by simp
    next
      case (Resolved x)
      with True tx w Cons.IH[of c1 gw'] show ?thesis
        by (simp add: case_prod_beta)
    qed
  qed
qed

lemma expiredTodo_butlast:
  "Rejected \<notin> set (map snd (butlast (fst (expiredTodo rt c gw))))"
  using expiredTodoLoop_butlast[of rt "dates rt (Suc (fst c))" "(Suc (Suc (fst c)), snd c)"
          "request gw" "legacy_expiring rt c gw"]
  by (simp add: expiredTodo_submitted)

lemma expiredTodo_complete:
  assumes "\<not> failing gw (requests gw)"
      and "Rejected \<notin> set (map snd (fst (expiredTodo rt c gw)))"
  shows "map fst (fst (expiredTodo rt c gw))
     = legacy_transactions_in_order rt (dates rt (Suc (fst c))) (Suc (Suc (fst c))) (snd c)
         (legacy_expiring rt c gw)"
  using expiredTodoLoop_complete[of rt "dates rt (Suc (fst c))" "(Suc (Suc (fst c)), snd c)"
          "request gw" "legacy_expiring rt c gw"] assms
  by (simp add: expiredTodo_submitted)

section \<open>The batch, record by record\<close>




lemma batch_successors:
  "successors (fst (createTransactItems rt c todoItems))
     = successors_in_order rt (Suc (fst c)) (snd c) (expiring rt c todoItems)"
  by (simp add: successors_createTransactItems createExpiredTransactItems_in_order(1)
        successors_expiry_items)

section \<open>The status update and the parts of the batch\<close>

text \<open>
  The status update changes no field but \<^verbatim>\<open>status\<close>, and the date test of \<^verbatim>\<open>deleteTodo\<close>
  selects the same ids after it as before it.
\<close>

lemma status_update_frame:
  "createTransactItemForStatusUpdate t = Update (todo_id t) 1
   \<and> filter hasUpdate (fst (transactItems_of rt u c t)) = [Update (todo_id t) 1]
   \<and> map (\<lambda>r. r\<lparr>status := s\<rparr>) (applyOp table (Update k v)) = map (\<lambda>r. r\<lparr>status := s\<rparr>) table
   \<and> map updatedAt (applyOp table (Update k v)) = map updatedAt table
   \<and> map todo_id (filter (deleteTodo_due deleteLimit) (applyOp table (Update k v)))
       = deleteTargetIds deleteLimit table
   \<and> map status (rows (snd (snd (expiredTodo ticking (0, 0) (healthy [recurring_b]))))) = [1, 0]
   \<and> map updatedAt (rows (snd (snd (expiredTodo ticking (0, 0) (healthy [recurring_b])))))
       = [updatedAt recurring_b, Date (run_time + 1)]"
proof -
  have "map todo_id (filter (deleteTodo_due deleteLimit) (applyOp table (Update k v)))
       = deleteTargetIds deleteLimit table"
    by (induction table) (simp_all add: deleteTargetIds_def deleteTodo_due_def)
  moreover have "map (\<lambda>r. r\<lparr>status := s\<rparr>) (applyOp table (Update k v))
      = map (\<lambda>r. r\<lparr>status := s\<rparr>) table"
    by (induction table) simp_all
  moreover have "map updatedAt (applyOp table (Update k v)) = map updatedAt table"
    by (induction table) simp_all
  moreover have
    "map status (rows (snd (snd (expiredTodo ticking (0, 0) (healthy [recurring_b]))))) = [1, 0]"
    by code_simp
  moreover have "map updatedAt (rows (snd (snd (expiredTodo ticking (0, 0) (healthy [recurring_b])))))
       = [updatedAt recurring_b, Date (run_time + 1)]"
    by code_simp
  ultimately show ?thesis
    by (simp add: createTransactItemForStatusUpdate_def transactItems_of_def Let_def)
qed




section \<open>The successors of a run\<close>

lemma successors_take_concat:
  "successors (concat (take k xss))
     = take (length (successors (concat (take k xss)))) (successors (concat xss))"
proof -
  have "successors (concat xss)
      = successors (concat (take k xss)) @ successors (concat (drop k xss))"
    by (metis append_take_drop_id concat_append successors_append)
  then show ?thesis by simp
qed

lemma legacy_successors:
  "successors (concat (map fst (fst (expiredTodo rt c gw))))
     = take (length (successors (concat (map fst (fst (expiredTodo rt c gw))))))
         (map (\<lambda>p. p\<lparr>updatedAt := Date (dates rt (Suc (fst c)))\<rparr>)
            (successors_in_order rt (Suc (Suc (fst c))) (snd c) (legacy_expiring rt c gw)))"
  using successors_take_concat[of "length (fst (expiredTodo rt c gw))"
          "legacy_transactions_in_order rt (dates rt (Suc (fst c))) (Suc (Suc (fst c))) (snd c)
             (legacy_expiring rt c gw)"]
  by (simp only: expiredTodo_prefix[symmetric] successors_legacy_transactions)









section \<open>Claims\<close>

text \<open>
  C1. Scenario A of the specification: one Active record, due ten days before the run,
  last updated the day before the run, not recurring, thresholds of seven days. The
  specification expects the batch to be the single status update. The TypeScript handler
  answers with a single delete: the record it has just selected for the update also passes
  the purge test, which reads \<^verbatim>\<open>targetAt\<close>, and the update is dropped as superseded. The
  older handler builds the update but submits a transaction only for recurring records,
  so the table keeps the record as it was.
\<close>

theorem scenario_A_is_deleted_not_flagged:
  "fst (createTransactItems ticking (0, 0)
         [sample_todo ''a'' 0 (run_time - 10 * day) (run_time - day) False []])
     = [Delete ''a'']
   \<and> rows (snd (legacy_lambdaHandler ticking (0, 0)
                  (healthy [sample_todo ''a'' 0 (run_time - 10 * day) (run_time - day) False []])))
     = [sample_todo ''a'' 0 (run_time - 10 * day) (run_time - day) False []]"
  by code_simp

text \<open>
  C2, as stated, fails in two places. In one run of the TypeScript handler two successors
  have different \<^verbatim>\<open>targetAt\<close> values, each three days after its own clock reading, so
  they are not both the time of the run plus three days. In the older handler the loop
  stops at the first transaction the store rejects: the recurring record \<^verbatim>\<open>c\<close> is expiring
  and has a sub-item that is not complete, and no create is produced for it.
\<close>

theorem create_targets_differ_and_legacy_loop_stops:
  "map targetAt (successors (fst (createTransactItems ticking (0, 0) [recurring_b, recurring_c])))
     = [Date (run_time + 1 + 3 * day), Date (run_time + 2 + 3 * day)]
   \<and> legacy_expiring ticking (0, 0) (write_fails [recurring_b, recurring_c])
     = [recurring_b, recurring_c]
   \<and> carryOver recurring_c
   \<and> map complete (contentList (comment recurring_c)) = [JBool True, JBool False]
   \<and> map fst (fst (expiredTodo ticking (0, 0) (write_fails [recurring_b, recurring_c])))
     = [fst (transactItems_of ticking (run_time + 1) (2, 0) recurring_b)]
   \<and> map todo_id (successors (concat (map fst
         (fst (expiredTodo ticking (0, 0) (write_fails [recurring_b, recurring_c]))))))
     = [''new'']"
  by code_simp

text \<open>
  C2, amended. In the TypeScript handler the creates of the batch are, in snapshot order,
  the successors of exactly the expiring records that carry over, that is, whose
  \<^verbatim>\<open>carryOver\<close> is true and which have a sub-item with \<^verbatim>\<open>complete\<close> equal to \<^verbatim>\<open>false\<close>; each
  create is conditioned on the absence of its id and directly follows the status update
  of its record. In the older handler the transactions submitted are the leading ones of
  the transactions of the recurring expiring records: none when the query fails, all of
  them when the query succeeds and the store rejects none, and otherwise those up to and
  including the first one the store rejects. The \<^verbatim>\<open>contentList\<close> of a successor is that of its
  predecessor filtered to the sub-items that are not complete, in order, and its
  \<^verbatim>\<open>targetAt\<close> is three days after the clock reading taken for that successor. A record
  whose \<^verbatim>\<open>carryOver\<close> is false does not carry over, whatever its comment holds.
\<close>

theorem creates_follow_carrying_records:
  "successors (fst (createTransactItems rt c todoItems))
     = successors_in_order rt (Suc (fst c)) (snd c) (expiring rt c todoItems)
   \<and> fst (createExpiredTransactItems rt c todoItems)
     = expiry_items_in_order (\<lambda>k. False) rt (Suc (fst c)) (snd c) (expiring rt c todoItems)
   \<and> map fst (fst (expiredTodo rt c gw))
     = take (length (fst (expiredTodo rt c gw)))
         (legacy_transactions_in_order rt (dates rt (Suc (fst c))) (Suc (Suc (fst c))) (snd c)
            (legacy_expiring rt c gw))
   \<and> (\<not> failing gw (requests gw)
        \<and> Rejected \<notin> set (map snd (fst (expiredTodo rt c gw))) \<longrightarrow>
      map fst (fst (expiredTodo rt c gw))
        = legacy_transactions_in_order rt (dates rt (Suc (fst c))) (Suc (Suc (fst c))) (snd c)
            (legacy_expiring rt c gw))
   \<and> Rejected \<notin> set (map snd (butlast (fst (expiredTodo rt c gw))))
   \<and> (failing gw (requests gw) \<longrightarrow> fst (expiredTodo rt c gw) = [])
   \<and> (carries t \<longleftrightarrow>
        carryOver t \<and> (\<exists>x\<in>set (contentList (comment t)). complete x = JBool False))
   \<and> (\<not> carryOver t \<longrightarrow> \<not> carries (t\<lparr>comment := cm\<rparr>))
   \<and> contentList (comment (successor_of now fresh t))
     = filter (\<lambda>x. complete x = JBool False) (contentList (comment t))
   \<and> targetAt (successor_of now fresh t) = Date (now + 3 * 86400000)"
proof -
  have "failing gw (requests gw) \<longrightarrow> fst (expiredTodo rt c gw) = []"
    by (simp add: expiredTodo_submitted)
  moreover
  have "carries t \<longleftrightarrow>
        carryOver t \<and> (\<exists>x\<in>set (contentList (comment t)). complete x = JBool False)"
    by (simp add: carries_def)
  moreover have "\<not> carryOver t \<longrightarrow> \<not> carries (t\<lparr>comment := cm\<rparr>)"
    by (simp add: carries_def)
  moreover have "contentList (comment (successor_of now fresh t))
     = filter (\<lambda>x. complete x = JBool False) (contentList (comment t))"
    "targetAt (successor_of now fresh t) = Date (now + 3 * 86400000)"
    by (simp_all add: successor_of_def)
  ultimately show ?thesis
    using batch_successors[of rt c todoItems]
      createExpiredTransactItems_in_order(1)[of rt c todoItems]
      expiredTodo_prefix[of rt c gw] expiredTodo_complete[of gw rt c]
      expiredTodo_butlast[of rt c gw]
    by blast
qed

theorem creates_follow_carrying_records_witness:
  "\<not> failing (healthy [recurring_b, recurring_c]) (requests (healthy [recurring_b, recurring_c]))
   \<and> Rejected \<notin> set (map snd
         (fst (expiredTodo ticking (0, 0) (healthy [recurring_b, recurring_c]))))
   \<and> map fst (fst (expiredTodo ticking (0, 0) (healthy [recurring_b, recurring_c])))
     = legacy_transactions_in_order ticking (dates ticking (Suc (fst (0::nat, 0::nat))))
         (Suc (Suc (fst (0::nat, 0::nat)))) (snd (0::nat, 0::nat))
         (legacy_expiring ticking (0, 0) (healthy [recurring_b, recurring_c]))
   \<and> map (map isPut) (map fst
         (fst (expiredTodo ticking (0, 0) (healthy [recurring_b, recurring_c]))))
     = [[False, True], [False, True]]
   \<and> \<not> carryOver (sample_todo ''a'' 0 0 0 False [open_item ''x''])
   \<and> \<not> carries ((sample_todo ''a'' 0 0 0 False [open_item ''x''])
                   \<lparr>comment := comment recurring_b\<rparr>)
   \<and> failing (read_fails [recurring_b]) (requests (read_fails [recurring_b]))
   \<and> fst (expiredTodo ticking (0, 0) (read_fails [recurring_b])) = []"
proof -
  have f: "failing (read_fails [recurring_b]) (requests (read_fails [recurring_b]))"
    by (simp add: read_fails_def)
  have h: "\<not> failing (healthy [recurring_b, recurring_c])
               (requests (healthy [recurring_b, recurring_c]))"
    by (simp add: healthy_def)
  have r: "Rejected \<notin> set (map snd
         (fst (expiredTodo ticking (0, 0) (healthy [recurring_b, recurring_c]))))"
    by code_simp
  have m: "map (map isPut) (map fst
         (fst (expiredTodo ticking (0, 0) (healthy [recurring_b, recurring_c]))))
     = [[False, True], [False, True]]"
    by code_simp
  have n: "\<not> carryOver (sample_todo ''a'' 0 0 0 False [open_item ''x''])"
    by (simp add: sample_todo_def)
  from creates_follow_carrying_records[of ticking "(0, 0)" _ "healthy [recurring_b, recurring_c]"
      "sample_todo ''a'' 0 0 0 False [open_item ''x'']" "comment recurring_b"]
    creates_follow_carrying_records[of ticking "(0, 0)" _ "read_fails [recurring_b]"]
    h r m n f
  show ?thesis by blast
qed

text \<open>
  C3. Two Expired records, thresholds of seven days. Record \<^verbatim>\<open>e\<close> was last updated eight
  days before the run and is due one day before it: the TypeScript handler produces no
  delete for it. Record \<^verbatim>\<open>f\<close> was last updated one day before the run and is due ten days
  before it: the TypeScript handler deletes it. The purge test of \<^verbatim>\<open>createDeleteTransactItems\<close>
  reads \<^verbatim>\<open>targetAt\<close> where its own description, the README and the older \<^verbatim>\<open>deleteTodo\<close> read
  \<^verbatim>\<open>updatedAt\<close>; the older handler deletes \<^verbatim>\<open>e\<close> and keeps \<^verbatim>\<open>f\<close>.
\<close>

theorem purge_test_reads_targetAt:
  "fst (createTransactItems ticking (0, 0)
         [sample_todo ''e'' 1 (run_time - day) (run_time - 8 * day) False []]) = []
   \<and> fst (createTransactItems ticking (0, 0)
         [sample_todo ''f'' 1 (run_time - 10 * day) (run_time - day) False []]) = [Delete ''f'']
   \<and> rows (snd (deleteTodo ticking (0, 0)
         (healthy [sample_todo ''e'' 1 (run_time - day) (run_time - 8 * day) False []]))) = []
   \<and> rows (snd (deleteTodo ticking (0, 0)
         (healthy [sample_todo ''f'' 1 (run_time - 10 * day) (run_time - day) False []])))
       = [sample_todo ''f'' 1 (run_time - 10 * day) (run_time - day) False []]"
  by code_simp




text \<open>
  C5, as stated, fails on the older handler: the store rejects the transaction of record
  \<^verbatim>\<open>c\<close>, the error is caught and logged, the handler answers 200, and the transaction of
  record \<^verbatim>\<open>b\<close>, submitted before, stays applied: \<^verbatim>\<open>b\<close> is flagged and its successor is
  stored.
\<close>

theorem legacy_handler_answers_200_after_rejected_write:
  "map snd (fst (expiredTodo ticking (0, 0) (third_request_fails [recurring_b, recurring_c])))
     = [Resolved (), Rejected]
   \<and> fst (legacy_lambdaHandler ticking (0, 0) (third_request_fails [recurring_b, recurring_c]))
     = 200
   \<and> map (\<lambda>r. (todo_id r, status r))
         (rows (snd (legacy_lambdaHandler ticking (0, 0)
                       (third_request_fails [recurring_b, recurring_c]))))
     = [(''b'', 1), (''c'', 0), (''new'', 0)]"
  by code_simp

text \<open>
  C5, amended. The TypeScript handler answers 200 or 400. It answers 400 when the scan is
  rejected or comes without \<^verbatim>\<open>Items\<close>, and when the batch is not empty and its submission is
  rejected. Whenever it answers 400 the table is unchanged: the only write of a run is the
  one transaction, and a rejected transaction changes nothing. The older handler answers
  200 in every run.
\<close>

theorem failure_answers_400_and_leaves_table:
  "(fst (lambdaHandler rt c gw) = 200 \<or> fst (lambdaHandler rt c gw) = 400)
   \<and> (failing gw (requests gw) \<or> scanOmitsItems gw \<longrightarrow> fst (lambdaHandler rt c gw) = 400)
   \<and> (\<not> failing gw (requests gw) \<and> \<not> scanOmitsItems gw
        \<and> fst (createTransactItems rt c (rows gw)) \<noteq> []
        \<and> fst (transactWrite (request gw) (fst (createTransactItems rt c (rows gw)))) = Rejected
        \<longrightarrow> fst (lambdaHandler rt c gw) = 400)
   \<and> (fst (lambdaHandler rt c gw) = 400 \<longrightarrow> rows (snd (lambdaHandler rt c gw)) = rows gw)
   \<and> (fst (transactWrite gw ops) = Rejected \<longrightarrow> rows (snd (transactWrite gw ops)) = rows gw)
   \<and> fst (legacy_lambdaHandler rt c gw) = 200"
proof -
  have w: "fst (transactWrite (request gw) ops) = Rejected \<longleftrightarrow>
      failing gw (Suc (requests gw)) \<or> \<not> list_all (precondition (rows gw)) ops" for ops
    by (simp add: transactWrite_def submitBatch_def request_def)
  show ?thesis
    using transactWrite_Rejected[of gw ops]
    by (simp add: lambdaHandler_eq rows_request w legacy_lambdaHandler_200)
qed

theorem failure_answers_400_and_leaves_table_witness:
  "\<not> failing (write_fails [recurring_b]) (requests (write_fails [recurring_b]))
   \<and> \<not> scanOmitsItems (write_fails [recurring_b])
   \<and> fst (createTransactItems ticking (0, 0) (rows (write_fails [recurring_b]))) \<noteq> []
   \<and> fst (transactWrite (request (write_fails [recurring_b]))
            (fst (createTransactItems ticking (0, 0) (rows (write_fails [recurring_b])))))
       = Rejected
   \<and> scanOmitsItems (scan_without_items [recurring_b])
   \<and> fst (lambdaHandler ticking (0, 0) (write_fails [recurring_b])) = 400
   \<and> rows (snd (lambdaHandler ticking (0, 0) (write_fails [recurring_b]))) = [recurring_b]
   \<and> fst (lambdaHandler ticking (0, 0) (scan_without_items [recurring_b])) = 400
   \<and> rows (snd (lambdaHandler ticking (0, 0) (scan_without_items [recurring_b])))
       = [recurring_b]"
proof -
  have r: "rows (write_fails [recurring_b]) = [recurring_b]"
    "rows (scan_without_items [recurring_b]) = [recurring_b]"
    by (simp_all add: write_fails_def scan_without_items_def)
  have h: "\<not> failing (write_fails [recurring_b]) (requests (write_fails [recurring_b]))"
    "\<not> scanOmitsItems (write_fails [recurring_b])"
    "scanOmitsItems (scan_without_items [recurring_b])"
    by (simp_all add: write_fails_def scan_without_items_def)
  have n: "fst (createTransactItems ticking (0, 0) [recurring_b]) \<noteq> []" by code_simp
  have j: "fst (transactWrite (request (write_fails [recurring_b]))
            (fst (createTransactItems ticking (0, 0) [recurring_b]))) = Rejected"
    by (simp add: transactWrite_def request_def write_fails_def)
  from failure_answers_400_and_leaves_table[of ticking "(0, 0)" "write_fails [recurring_b]"]
       failure_answers_400_and_leaves_table[of ticking "(0, 0)" "scan_without_items [recurring_b]"] r h n j
  show ?thesis by simp
qed




text \<open>
  C7, as stated, fails on the TypeScript handler: with a clock that advances between
  readings, the two successors of one run carry different \<^verbatim>\<open>updatedAt\<close> values.
\<close>

theorem successors_of_one_run_differ_in_updatedAt:
  "map updatedAt (successors (fst (createTransactItems ticking (0, 0) [recurring_b, recurring_c])))
     = [Date (run_time + 1), Date (run_time + 2)]
   \<and> updatedAt (successors (fst (createTransactItems ticking (0, 0) [recurring_b, recurring_c])) ! 0)
     \<noteq> updatedAt (successors (fst (createTransactItems ticking (0, 0) [recurring_b, recurring_c])) ! 1)"
  by code_simp

text \<open>
  C7, amended. The successors of a batch of the TypeScript handler are the successors, in
  the words of the specification, of the expiring records that carry over: \<^verbatim>\<open>title\<close>, \<^verbatim>\<open>url\<close>,
  \<^verbatim>\<open>carryOver\<close>, \<^verbatim>\<open>createdAt\<close> and \<^verbatim>\<open>updatedUser\<close> copied, no owner, \<^verbatim>\<open>updatedAt\<close> the clock
  reading taken when the successor is built and \<^verbatim>\<open>targetAt\<close> three days after it. The
  successors of one run take successive readings, so they agree on \<^verbatim>\<open>updatedAt\<close> only when
  those readings are equal. The successors submitted in one run of the older handler are
  the leading ones of the same successors with \<^verbatim>\<open>updatedAt\<close> replaced by the one reading
  taken before the loop, which all of them carry.
\<close>

theorem successor_copies_fields_and_reads_clock:
  "successors (fst (createTransactItems rt c todoItems))
     = successors_in_order rt (Suc (fst c)) (snd c) (expiring rt c todoItems)
   \<and> map updatedAt (successors (fst (createTransactItems rt c todoItems)))
     = map (\<lambda>j. Date (dates rt j))
         [Suc (fst c) ..<
            Suc (fst c) + length (successors (fst (createTransactItems rt c todoItems)))]
   \<and> successors (concat (map fst (fst (expiredTodo rt c gw))))
     = take (length (successors (concat (map fst (fst (expiredTodo rt c gw))))))
         (map (\<lambda>p. p\<lparr>updatedAt := Date (dates rt (Suc (fst c)))\<rparr>)
            (successors_in_order rt (Suc (Suc (fst c))) (snd c) (legacy_expiring rt c gw)))
   \<and> map updatedAt (successors (concat (map fst (fst (expiredTodo rt c gw)))))
     = replicate (length (successors (concat (map fst (fst (expiredTodo rt c gw))))))
         (Date (dates rt (Suc (fst c))))
   \<and> title (successor_of now fresh t) = title t
   \<and> url (successor_of now fresh t) = url t
   \<and> carryOver (successor_of now fresh t) = carryOver t
   \<and> createdAt (successor_of now fresh t) = createdAt t
   \<and> updatedUser (successor_of now fresh t) = updatedUser t
   \<and> owner (successor_of now fresh t) = None
   \<and> updatedAt (successor_of now fresh t) = Date now
   \<and> targetAt (successor_of now fresh t) = Date (now + 3 * 86400000)"
proof -
  let ?L = "successors (concat (map fst (fst (expiredTodo rt c gw))))"
  let ?u = "Date (dates rt (Suc (fst c)))"
  have b: "map updatedAt (successors (fst (createTransactItems rt c todoItems)))
     = map (\<lambda>j. Date (dates rt j))
         [Suc (fst c) ..<
            Suc (fst c) + length (successors (fst (createTransactItems rt c todoItems)))]"
    using successors_expiredLoop_updatedAt[of rt "(Suc (fst c), snd c)"]
    by (simp add: successors_createTransactItems createExpiredTransactItems_def Let_def)
  have "\<And>p. p \<in> set ?L \<Longrightarrow> updatedAt p = ?u"
  proof -
    fix p assume "p \<in> set ?L"
    then have "p \<in> set (take (length ?L)
         (map (\<lambda>p. p\<lparr>updatedAt := ?u\<rparr>)
            (successors_in_order rt (Suc (Suc (fst c))) (snd c) (legacy_expiring rt c gw))))"
      using legacy_successors[of rt c gw] by simp
    then have "p \<in> set (map (\<lambda>p. p\<lparr>updatedAt := ?u\<rparr>)
            (successors_in_order rt (Suc (Suc (fst c))) (snd c) (legacy_expiring rt c gw)))"
      by (rule in_set_takeD)
    then show "updatedAt p = ?u" by auto
  qed
  then have d: "map updatedAt ?L = replicate (length ?L) ?u"
    by (simp add: map_replicate_const[symmetric] cong: map_cong)
  show ?thesis
    using batch_successors[of rt c todoItems] b legacy_successors[of rt c gw] d
    by (simp add: successor_of_def)
qed

text \<open>
  C8. Every create in a batch, of either handler, carries the condition
  \<^verbatim>\<open>attribute_not_exists(#id)\<close>. A transaction holding such a create whose id is the id of a
  stored row is rejected by the store and leaves the table as it was; the handler then
  answers 400, and the table after the run is the table before it.
\<close>

theorem create_conditioned_and_collision_rejects_batch:
  "(Put p cond \<in> set (fst (createTransactItems rt c todoItems)) \<longrightarrow>
      cond = Some attribute_not_exists_id)
   \<and> (Put p cond \<in> set (fst (transactItems_of rt u c t)) \<longrightarrow>
      cond = Some attribute_not_exists_id)
   \<and> (Put p (Some attribute_not_exists_id) \<in> set ops
        \<and> todo_id p \<in> set (map todo_id (rows gw)) \<longrightarrow>
      fst (transactWrite gw ops) = Rejected \<and> rows (snd (transactWrite gw ops)) = rows gw)
   \<and> (\<not> failing gw (requests gw) \<and> \<not> scanOmitsItems gw
        \<and> Put p cond \<in> set (fst (createTransactItems rt c (rows gw)))
        \<and> todo_id p \<in> set (map todo_id (rows gw)) \<longrightarrow>
      fst (lambdaHandler rt c gw) = 400 \<and> rows (snd (lambdaHandler rt c gw)) = rows gw)"
proof -
  have a: "cond = Some attribute_not_exists_id"
    if "Put p cond \<in> set (fst (createTransactItems rt c todoItems))" for todoItems
  proof -
    from batch_successor[OF that] obtain t j where
      "Put p cond = fst (createTransactItemForNewDedlineTodo rt (Suc (fst c) + j, snd c + j) t
                              (carryOverComment_of t))" by blast
    then show ?thesis by (simp add: createTransactItemForNewDedlineTodo_def Let_def)
  qed
  have b: "cond = Some attribute_not_exists_id"
    if "Put p cond \<in> set (fst (transactItems_of rt u c t))"
    using that by (auto simp: transactItems_of_def Let_def split: if_splits)
  have d: "fst (transactWrite gw ops) = Rejected \<and> rows (snd (transactWrite gw ops)) = rows gw"
    if "Put p (Some attribute_not_exists_id) \<in> set ops"
       "todo_id p \<in> set (map todo_id (rows gw))"
  proof -
    from collision_violates[OF that] have "fst (transactWrite gw ops) = Rejected"
      by (simp add: transactWrite_def submitBatch_def)
    then show ?thesis using transactWrite_Rejected by blast
  qed
  have e: "fst (lambdaHandler rt c gw) = 400 \<and> rows (snd (lambdaHandler rt c gw)) = rows gw"
    if "\<not> failing gw (requests gw)" "\<not> scanOmitsItems gw"
       "Put p cond \<in> set (fst (createTransactItems rt c (rows gw)))"
       "todo_id p \<in> set (map todo_id (rows gw))"
  proof -
    from that(3) have ne: "fst (createTransactItems rt c (rows gw)) \<noteq> []" by auto
    from that(3) a have "Put p (Some attribute_not_exists_id)
        \<in> set (fst (createTransactItems rt c (rows gw)))" by blast
    from collision_violates[OF this that(4)] ne that(1,2) show ?thesis
      by (simp add: lambdaHandler_eq rows_request)
  qed
  show ?thesis using a b d e by blast
qed

theorem create_conditioned_and_collision_rejects_batch_witness:
  "\<not> failing (healthy [recurring_b]) (requests (healthy [recurring_b]))
   \<and> \<not> scanOmitsItems (healthy [recurring_b])
   \<and> Put colliding_successor (Some attribute_not_exists_id)
        \<in> set (fst (createTransactItems colliding (0, 0) (rows (healthy [recurring_b]))))
   \<and> todo_id colliding_successor \<in> set (map todo_id (rows (healthy [recurring_b])))
   \<and> fst (lambdaHandler colliding (0, 0) (healthy [recurring_b])) = 400
   \<and> rows (snd (lambdaHandler colliding (0, 0) (healthy [recurring_b]))) = [recurring_b]"
proof -
  have r: "rows (healthy [recurring_b]) = [recurring_b]" by (simp add: healthy_def)
  have h: "\<not> failing (healthy [recurring_b]) (requests (healthy [recurring_b]))"
    "\<not> scanOmitsItems (healthy [recurring_b])" by (simp_all add: healthy_def)
  have m: "Put colliding_successor (Some attribute_not_exists_id)
        \<in> set (fst (createTransactItems colliding (0, 0) [recurring_b]))" by code_simp
  have i: "todo_id colliding_successor \<in> set (map todo_id [recurring_b])" by code_simp
  from create_conditioned_and_collision_rejects_batch[of colliding_successor "Some attribute_not_exists_id" colliding "(0, 0)" _ _ _ _
      "healthy [recurring_b]"] h m i r
  show ?thesis by simp
qed

text \<open>
  C9. Two Expired records, thresholds of seven days. Record \<^verbatim>\<open>g\<close> was last updated thirty
  days before the run and is due three days before it; record \<^verbatim>\<open>h\<close> was updated at the
  time of the run and is due ten days before it. The purge test of the TypeScript handler
  does not read \<^verbatim>\<open>updatedAt\<close>: its answer is the same whatever that field holds, it keeps
  \<^verbatim>\<open>g\<close> and deletes \<^verbatim>\<open>h\<close>. The older \<^verbatim>\<open>deleteTodo\<close>, which measures from \<^verbatim>\<open>updatedAt\<close>,
  deletes \<^verbatim>\<open>g\<close> and keeps \<^verbatim>\<open>h\<close>.
\<close>

theorem purge_ignores_updatedAt:
  "deleteEligible deleteLimit deleteIds (t\<lparr>updatedAt := u\<rparr>)
     = deleteEligible deleteLimit deleteIds t
   \<and> fst (createTransactItems ticking (0, 0)
         [sample_todo ''g'' 1 (run_time - 3 * day) (run_time - 30 * day) False [],
          sample_todo ''h'' 1 (run_time - 10 * day) run_time False []])
     = [Delete ''h'']
   \<and> map todo_id (rows (snd (deleteTodo ticking (0, 0)
         (healthy [sample_todo ''g'' 1 (run_time - 3 * day) (run_time - 30 * day) False [],
                   sample_todo ''h'' 1 (run_time - 10 * day) run_time False []]))))
     = [''h'']"
proof -
  have "deleteEligible deleteLimit deleteIds (t\<lparr>updatedAt := u\<rparr>)
     = deleteEligible deleteLimit deleteIds t"
    by (simp add: deleteEligible_def)
  moreover have "fst (createTransactItems ticking (0, 0)
         [sample_todo ''g'' 1 (run_time - 3 * day) (run_time - 30 * day) False [],
          sample_todo ''h'' 1 (run_time - 10 * day) run_time False []])
     = [Delete ''h'']"
    by code_simp
  moreover have "map todo_id (rows (snd (deleteTodo ticking (0, 0)
         (healthy [sample_todo ''g'' 1 (run_time - 3 * day) (run_time - 30 * day) False [],
                   sample_todo ''h'' 1 (run_time - 10 * day) run_time False []]))))
     = [''h'']"
    by code_simp
  ultimately show ?thesis by blast
qed

text \<open>
  C10. The carry-over filter keeps a sub-item exactly when its \<^verbatim>\<open>complete\<close> field is the
  boolean \<^verbatim>\<open>false\<close>: a sub-item whose field is undefined (also when it is missing), null,
  0, the string \<^verbatim>\<open>false\<close> or \<^verbatim>\<open>true\<close> is not in the filtered list, and every sub-item of a
  successor in the batch of either handler has \<^verbatim>\<open>complete\<close> equal to \<^verbatim>\<open>false\<close>.
\<close>

theorem carry_over_keeps_only_strictly_false:
  "(x \<in> set (contentList (carryOverComment_of t)) \<longleftrightarrow>
      x \<in> set (contentList (comment t)) \<and> complete x = JBool False)
   \<and> (complete x \<in> {JUndefined, JNull, JNum 0, JStr ''false'', JBool True} \<longrightarrow>
        x \<notin> set (contentList (carryOverComment_of t)))
   \<and> (Put p cond \<in> set (fst (createTransactItems rt c todoItems)) \<longrightarrow>
        (\<forall>y\<in>set (contentList (comment p)). complete y = JBool False))
   \<and> (Put p cond \<in> set (fst (transactItems_of rt u c t)) \<longrightarrow>
        (\<forall>y\<in>set (contentList (comment p)). complete y = JBool False))"
proof -
  have a: "x \<in> set (contentList (carryOverComment_of t)) \<longleftrightarrow>
      x \<in> set (contentList (comment t)) \<and> complete x = JBool False" for x t
    by (simp add: carryOverComment_of_def)
  have b: "\<forall>y\<in>set (contentList (comment p)). complete y = JBool False"
    if "Put p cond \<in> set (fst (createTransactItems rt c todoItems))"
  proof -
    from that have "Put p cond \<in> set (fst (createExpiredTransactItems rt c todoItems))"
      by (simp add: createTransactItems_Put)
    from createExpiredTransactItems_Put[OF this] obtain t' j where
      "Put p cond = fst (createTransactItemForNewDedlineTodo rt (Suc (fst c) + j, snd c + j) t'
                           (carryOverComment_of t'))" by blast
    then have "comment p = carryOverComment_of t'"
      by (simp add: createTransactItemForNewDedlineTodo_def Let_def)
    then show ?thesis by (simp add: a)
  qed
  have d: "\<forall>y\<in>set (contentList (comment p)). complete y = JBool False"
    if "Put p cond \<in> set (fst (transactItems_of rt u c t))"
  proof -
    from that have "comment p = carryOverComment_of t"
      by (auto simp: transactItems_of_def Let_def split: if_splits)
    then show ?thesis by (simp add: a)
  qed
  show ?thesis using a b d by auto
qed

theorem carry_over_keeps_only_strictly_false_witness:
  "Put mixed_successor (Some attribute_not_exists_id)
     \<in> set (fst (createTransactItems ticking (0, 0) [mixed_record]))
   \<and> Put (mixed_successor\<lparr>updatedAt := Date run_time\<rparr>) (Some attribute_not_exists_id)
     \<in> set (fst (transactItems_of ticking run_time (1, 0) mixed_record))
   \<and> map complete (contentList (comment mixed_successor)) = [JBool False]
   \<and> complete \<lparr> complete = JNum 0, content = ''c'' \<rparr>
       \<in> {JUndefined, JNull, JNum 0, JStr ''false'', JBool True}
   \<and> \<lparr> complete = JNum 0, content = ''c'' \<rparr> \<in> set (contentList (comment mixed_record))
   \<and> \<lparr> complete = JNum 0, content = ''c'' \<rparr>
       \<notin> set (contentList (carryOverComment_of mixed_record))"
proof -
  have m: "Put mixed_successor (Some attribute_not_exists_id)
     \<in> set (fst (createTransactItems ticking (0, 0) [mixed_record]))"
    by code_simp
  have n: "Put (mixed_successor\<lparr>updatedAt := Date run_time\<rparr>) (Some attribute_not_exists_id)
     \<in> set (fst (transactItems_of ticking run_time (1, 0) mixed_record))"
    by code_simp
  have k: "complete \<lparr> complete = JNum 0, content = ''c'' \<rparr>
       \<in> {JUndefined, JNull, JNum 0, JStr ''false'', JBool True}" by simp
  have l: "\<lparr> complete = JNum 0, content = ''c'' \<rparr> \<in> set (contentList (comment mixed_record))"
    by (simp add: mixed_record_def sample_todo_def mixed_items_def)
  from carry_over_keeps_only_strictly_false[of "\<lparr> complete = JNum 0, content = ''c'' \<rparr>" mixed_record mixed_successor
      "Some attribute_not_exists_id" ticking "(0, 0)" "[mixed_record]"] m k
  have "(\<forall>y\<in>set (contentList (comment mixed_successor)). complete y = JBool False)
     \<and> \<lparr> complete = JNum 0, content = ''c'' \<rparr>
       \<notin> set (contentList (carryOverComment_of mixed_record))"
    by blast
  moreover have "map complete (contentList (comment mixed_successor)) = [JBool False]"
    by (simp add: mixed_successor_def open_item_def)
  ultimately show ?thesis using m n k l by blast
qed

end
